theory Spec2Isabelle
  imports Complex_Main
begin

section \<open>Values exchanged with the WHOOP API\<close>

text \<open>
  The client decodes every response body with the JSON codec of the HTTP library, so the
  values it handles are Python objects built from \<open>None\<close>, booleans, integers, floats,
  strings, lists and dicts. A dict is kept as an association list in insertion order;
  a decoded dict has distinct keys.
\<close>

datatype pyfloat = Finite rat | Infinity | NegInfinity | NaN

datatype json =
    JNull
  | JBool bool
  | JInt int
  | JFloat pyfloat
  | JStr string
  | JList "json list"
  | JObj "(string \<times> json) list"

text \<open>
  The exceptions that can leave the modelled methods. \<open>HTTPError\<close> carries the
  status code of the response it was raised for, \<open>KeyError\<close> the missing key and
  \<open>ValueError\<close> its message; \<open>TransportError\<close> and \<open>OAuthError\<close> stand for
  whatever the session object itself raises.
\<close>

datatype error =
    HTTPError nat
  | JSONDecodeError
  | KeyError string
  | TypeError
  | AttributeError
  | ValueError string
  | OverflowError
  | TransportError
  | OAuthError

text \<open>Python's truth value of a decoded object, as tested by \<open>if x\<close>.\<close>

fun truthy :: "json \<Rightarrow> bool" where
  "truthy JNull = False"
| "truthy (JBool b) = b"
| "truthy (JInt i) = (i \<noteq> 0)"
| "truthy (JFloat f) = (f \<noteq> Finite 0)"
| "truthy (JStr s) = (s \<noteq> [])"
| "truthy (JList xs) = (xs \<noteq> [])"
| "truthy (JObj kvs) = (kvs \<noteq> [])"

text \<open>
  Subscription \<open>x[key]\<close> with a string key: a dict yields the value or raises
  \<open>KeyError\<close>; every other decoded object raises \<open>TypeError\<close>.
\<close>

fun getitem :: "json \<Rightarrow> string \<Rightarrow> error + json" where
  "getitem (JObj kvs) k =
     (case map_of kvs k of None \<Rightarrow> Inl (KeyError k) | Some v \<Rightarrow> Inr v)"
| "getitem _ k = Inl TypeError"

text \<open>
  The elements that \<open>some_list += x\<close> appends: those of a list, the characters of a
  string, the keys of a dict; anything else is not iterable.
\<close>

fun py_iter :: "json \<Rightarrow> error + json list" where
  "py_iter (JList xs) = Inr xs"
| "py_iter (JStr s) = Inr (map (\<lambda>c. JStr [c]) s)"
| "py_iter (JObj kvs) = Inr (map (\<lambda>kv. JStr (fst kv)) kvs)"
| "py_iter _ = Inl TypeError"

section \<open>The HTTP session\<close>

text \<open>
  A request as handed to \<open>session.request\<close>: the method, the full URL and the query
  parameters (a dict). An HTTP response has a status code and a body, which either
  decodes to a JSON value or does not (\<open>None\<close>).
\<close>

record request =
  http_method :: string
  url :: string
  params :: "string \<rightharpoonup> json"

record http_response =
  status_code :: nat
  json_body :: "json option"

text \<open>
  The network seen from the client: \<open>pending\<close> holds the outcome of every call of
  \<open>session.request\<close> still to come (the next one at index 0; an outcome is an exception
  raised by the session or a response), and \<open>sent\<close> records the requests issued so
  far, oldest first.
\<close>

record network =
  pending :: "nat \<Rightarrow> error + http_response"
  sent :: "request list"

definition REQUEST_URL :: string where
  "REQUEST_URL = ''https://api.prod.whoop.com/developer''"

definition request_for :: "string \<Rightarrow> string \<Rightarrow> (string \<rightharpoonup> json) \<Rightarrow> request" where
  "request_for meth url_slug ps =
     \<lparr>http_method = meth, url = REQUEST_URL @ ''/'' @ url_slug, params = ps\<rparr>"

definition session_request ::
  "network \<Rightarrow> request \<Rightarrow> (error + http_response) \<times> network" where
  "session_request w req =
     (pending w 0, \<lparr>pending = (\<lambda>i. pending w (Suc i)), sent = sent w @ [req]\<rparr>)"

text \<open>
  \<open>Response.raise_for_status\<close> of the HTTP library raises for the client-error and
  server-error classes of status codes, 400 to 599, and returns otherwise.
  \<open>Response.json\<close> raises when the body is not JSON.
\<close>

definition raise_for_status :: "http_response \<Rightarrow> error + unit" where
  "raise_for_status r =
     (if 400 \<le> status_code r \<and> status_code r < 600
      then Inl (HTTPError (status_code r)) else Inr ())"

definition response_json :: "http_response \<Rightarrow> error + json" where
  "response_json r = (case json_body r of None \<Rightarrow> Inl JSONDecodeError | Some j \<Rightarrow> Inr j)"

definition make_request ::
  "network \<Rightarrow> string \<Rightarrow> string \<Rightarrow> (string \<rightharpoonup> json) \<Rightarrow> (error + json) \<times> network" where
  "make_request w meth url_slug ps =
     (case session_request w (request_for meth url_slug ps) of
        (Inl e, w') \<Rightarrow> (Inl e, w')
      | (Inr response, w') \<Rightarrow>
          (case raise_for_status response of
             Inl e \<Rightarrow> (Inl e, w')
           | Inr _ \<Rightarrow> (response_json response, w')))"

text \<open>
  The loop of \<open>_make_paginated_request\<close>, with the loop variables \<open>params\<close> and
  \<open>response_data\<close> as arguments. The source has no bound on the number of rounds, so
  the result is optional: \<open>None\<close> is a loop that never ends. Of the keyword arguments
  only \<open>params\<close> is kept: the accessors of the client pass no other, and the loop hands
  any other through unchanged.
\<close>

partial_function (option) paginate_loop ::
  "string \<Rightarrow> string \<Rightarrow> network \<Rightarrow> (string \<rightharpoonup> json) \<Rightarrow> json list
     \<Rightarrow> ((error + json list) \<times> network) option" where
  "paginate_loop meth url_slug w ps response_data =
     (case make_request w meth url_slug ps of
        (Inl e, w') \<Rightarrow> Some (Inl e, w')
      | (Inr response, w') \<Rightarrow>
          (case getitem response ''records'' of
             Inl e \<Rightarrow> Some (Inl e, w')
           | Inr records \<Rightarrow>
               (case py_iter records of
                  Inl e \<Rightarrow> Some (Inl e, w')
                | Inr items \<Rightarrow>
                    (case getitem response ''next_token'' of
                       Inl e \<Rightarrow> Some (Inl e, w')
                     | Inr next_token \<Rightarrow>
                         if truthy next_token
                         then paginate_loop meth url_slug w' (ps(''nextToken'' \<mapsto> next_token))
                                (response_data @ items)
                         else Some (Inr (response_data @ items), w')))))"

definition make_paginated_request ::
  "network \<Rightarrow> string \<Rightarrow> string \<Rightarrow> (string \<rightharpoonup> json)
     \<Rightarrow> ((error + json list) \<times> network) option" where
  "make_paginated_request w meth url_slug ps = paginate_loop meth url_slug w ps []"

subsection \<open>One round of the loop, and scripted servers\<close>

text \<open>
  What one round of the loop makes of the outcome of its request: an exception (raised by
  the session, by \<open>raise_for_status\<close>, by the JSON decoder, by one of the two
  subscriptions or by \<open>+=\<close>), the last page with the items it appends, or a page with
  its items and a truthy \<open>next_token\<close>. Lemma \<open>paginate_loop_round\<close> below shows that
  the loop does exactly this.
\<close>

datatype round = Raises error | Last "json list" | More "json list" json

definition round_of :: "error + http_response \<Rightarrow> round" where
  "round_of reply =
     (case reply of
        Inl e \<Rightarrow> Raises e
      | Inr response \<Rightarrow>
          (case raise_for_status response of
             Inl e \<Rightarrow> Raises e
           | Inr _ \<Rightarrow>
               (case response_json response of
                  Inl e \<Rightarrow> Raises e
                | Inr body \<Rightarrow>
                    (case getitem body ''records'' of
                       Inl e \<Rightarrow> Raises e
                     | Inr records \<Rightarrow>
                         (case py_iter records of
                            Inl e \<Rightarrow> Raises e
                          | Inr items \<Rightarrow>
                              (case getitem body ''next_token'' of
                                 Inl e \<Rightarrow> Raises e
                               | Inr next_token \<Rightarrow>
                                   if truthy next_token then More items next_token
                                   else Last items))))))"

definition carries_cursor :: "error + http_response \<Rightarrow> bool" where
  "carries_cursor reply = (case round_of reply of More _ _ \<Rightarrow> True | _ \<Rightarrow> False)"

definition after_request :: "network \<Rightarrow> request \<Rightarrow> network" where
  "after_request w req = \<lparr>pending = (\<lambda>i. pending w (Suc i)), sent = sent w @ [req]\<rparr>"

text \<open>
  The parameters of request number \<open>i\<close> of a call that started with \<open>ps\<close> and has read
  the pages \<open>pgs\<close> (items and \<open>next_token\<close> of each): the first request carries \<open>ps\<close>,
  every later one \<open>ps\<close> with \<open>nextToken\<close> set to the cursor of the page before it.
\<close>

definition params_at ::
  "(string \<rightharpoonup> json) \<Rightarrow> (json list \<times> json) list \<Rightarrow> nat \<Rightarrow> (string \<rightharpoonup> json)" where
  "params_at ps pgs i = (if i = 0 then ps else ps(''nextToken'' \<mapsto> snd (pgs ! (i - 1))))"

definition requests_sent ::
  "string \<Rightarrow> string \<Rightarrow> (string \<rightharpoonup> json) \<Rightarrow> (json list \<times> json) list \<Rightarrow> nat
     \<Rightarrow> request list" where
  "requests_sent meth url_slug ps pgs n =
     map (\<lambda>i. request_for meth url_slug (params_at ps pgs i)) [0..<n]"

text \<open>
  For examples: a server that answers with the listed replies in order and drops the
  connection afterwards, and a well-formed page response.
\<close>

definition script :: "(error + http_response) list \<Rightarrow> nat \<Rightarrow> error + http_response" where
  "script replies i = (if i < length replies then replies ! i else Inl TransportError)"

definition page :: "json list \<Rightarrow> json \<Rightarrow> error + http_response" where
  "page records next_token =
     Inr \<lparr>status_code = 200,
          json_body = Some (JObj [(''records'', JList records), (''next_token'', next_token)])\<rparr>"

section \<open>Date ranges\<close>

text \<open>
  Dates and times are those of the standard library. A \<open>datetime\<close> is a day of the
  proleptic Gregorian calendar, kept as its ordinal (day 1 is 0001-01-01, the last day
  9999-12-31 is 3652059), and a time of day. Only naive values occur: \<open>datetime.combine\<close>
  takes the time zone from its time argument, and \<open>time.min\<close> and \<open>time.max\<close> have
  none.
\<close>

record pytime =
  hour :: nat
  minute :: nat
  second :: nat
  microsecond :: nat

record datetime =
  ordinal :: int
  time_part :: pytime

definition time_min :: pytime where
  "time_min = \<lparr>hour = 0, minute = 0, second = 0, microsecond = 0\<rparr>"

definition time_max :: pytime where
  "time_max = \<lparr>hour = 23, minute = 59, second = 59, microsecond = 999999\<rparr>"

text \<open>
  \<open>datetime.combine\<close> keeps the date of its first argument and replaces the time of
  day. Subtracting a \<open>timedelta\<close> of whole days moves the date and raises
  \<open>OverflowError\<close> outside the supported range. Comparison is lexicographic.
\<close>

definition combine :: "datetime \<Rightarrow> pytime \<Rightarrow> datetime" where
  "combine d t = \<lparr>ordinal = ordinal d, time_part = t\<rparr>"

definition minus_days :: "datetime \<Rightarrow> int \<Rightarrow> error + datetime" where
  "minus_days d n =
     (if ordinal d - n < 1 \<or> 3652059 < ordinal d - n then Inl OverflowError
      else Inr (d\<lparr>ordinal := ordinal d - n\<rparr>))"

definition time_less :: "pytime \<Rightarrow> pytime \<Rightarrow> bool" where
  "time_less a b =
     (hour a < hour b \<or> hour a = hour b \<and>
       (minute a < minute b \<or> minute a = minute b \<and>
         (second a < second b \<or> second a = second b \<and> microsecond a < microsecond b)))"

definition datetime_less :: "datetime \<Rightarrow> datetime \<Rightarrow> bool" where
  "datetime_less a b =
     (ordinal a < ordinal b \<or> ordinal a = ordinal b \<and> time_less (time_part a) (time_part b))"

text \<open>
  \<open>isoformat\<close> prints \<open>YYYY-MM-DD\<close>, the separator and \<open>HH:MM:SS\<close>, followed by the
  microseconds when the time specification is \<open>auto\<close> and they are not zero;
  \<open>str\<close> of a datetime is \<open>isoformat\<close> with a blank as separator. The year, month and
  day come from the ordinal by the library's \<open>_ord2ymd\<close>. Every field of a valid value
  fits its width.
\<close>

definition DAYS_IN_MONTH :: "int \<Rightarrow> int" where
  "DAYS_IN_MONTH m = [31, 28, 31, 30, 31, 30, 31, 31, 30, 31, 30, 31] ! nat (m - 1)"

definition DAYS_BEFORE_MONTH :: "int \<Rightarrow> int" where
  "DAYS_BEFORE_MONTH m = [0, 31, 59, 90, 120, 151, 181, 212, 243, 273, 304, 334] ! nat (m - 1)"

definition ord2ymd :: "int \<Rightarrow> int \<times> int \<times> int" where
  "ord2ymd n =
     (let n400 = (n - 1) div 146097; r400 = (n - 1) mod 146097;
          n100 = r400 div 36524; r100 = r400 mod 36524;
          n4 = r100 div 1461; r4 = r100 mod 1461;
          n1 = r4 div 365; r1 = r4 mod 365;
          year = n400 * 400 + 1 + n100 * 100 + n4 * 4 + n1
      in if n1 = 4 \<or> n100 = 4 then (year - 1, 12, 31)
         else
           (let leapyear = (n1 = 3 \<and> (n4 \<noteq> 24 \<or> n100 = 3));
                month = (r1 + 50) div 32;
                preceding = DAYS_BEFORE_MONTH month + (if 2 < month \<and> leapyear then 1 else 0)
            in if r1 < preceding
               then (year, month - 1,
                     r1 - (preceding - (DAYS_IN_MONTH (month - 1)
                             + (if month - 1 = 2 \<and> leapyear then 1 else 0))) + 1)
               else (year, month, r1 - preceding + 1)))"

definition digit :: "nat \<Rightarrow> char" where
  "digit n = ''0123456789'' ! (n mod 10)"

definition two_digits :: "nat \<Rightarrow> string" where
  "two_digits n = [digit (n div 10), digit n]"

definition four_digits :: "nat \<Rightarrow> string" where
  "four_digits n = [digit (n div 1000), digit (n div 100), digit (n div 10), digit n]"

definition six_digits :: "nat \<Rightarrow> string" where
  "six_digits n = [digit (n div 100000), digit (n div 10000), digit (n div 1000),
                   digit (n div 100), digit (n div 10), digit n]"

datatype timespec = Auto | Seconds

definition format_time :: "timespec \<Rightarrow> pytime \<Rightarrow> string" where
  "format_time spec t =
     two_digits (hour t) @ '':'' @ two_digits (minute t) @ '':'' @ two_digits (second t)
     @ (if spec = Auto \<and> microsecond t \<noteq> 0 then ''.'' @ six_digits (microsecond t) else [])"

definition format_date :: "int \<Rightarrow> string" where
  "format_date n =
     (case ord2ymd n of (y, m, d) \<Rightarrow>
        four_digits (nat y) @ ''-'' @ two_digits (nat m) @ ''-'' @ two_digits (nat d))"

definition isoformat :: "char \<Rightarrow> timespec \<Rightarrow> datetime \<Rightarrow> string" where
  "isoformat sep spec d = format_date (ordinal d) @ [sep] @ format_time spec (time_part d)"

definition str_datetime :: "datetime \<Rightarrow> string" where
  "str_datetime d = isoformat CHR '' '' Auto d"

text \<open>
  \<open>_format_dates\<close>. An argument counts as given when it is truthy: neither \<open>None\<close>
  nor the empty string. The model takes as parameters what the method gets from outside:
  the parser \<open>datetime.fromisoformat\<close> (its grammar depends on the Python version; it
  raises \<open>ValueError\<close> on a string it does not accept) and the two readings of the
  clock, \<open>today_end\<close> for the call of \<open>datetime.today()\<close> in the expression for
  \<open>end\<close> and \<open>today_start\<close> for the later call in the expression for \<open>start\<close>.
  A reading is used only when the argument is not given.
\<close>

fun given :: "string option \<Rightarrow> string option" where
  "given None = None"
| "given (Some s) = (if s = [] then None else Some s)"

definition format_dates ::
  "(string \<Rightarrow> error + datetime) \<Rightarrow> datetime \<Rightarrow> datetime
     \<Rightarrow> string option \<Rightarrow> string option \<Rightarrow> error + string \<times> string" where
  "format_dates fromisoformat today_end today_start start_date end_date =
     (case (case given end_date of Some s \<Rightarrow> fromisoformat s | None \<Rightarrow> Inr today_end) of
        Inl e \<Rightarrow> Inl e
      | Inr end_day \<Rightarrow>
          (let end = combine end_day time_max in
           case (case given start_date of
                   Some s \<Rightarrow> fromisoformat s
                 | None \<Rightarrow> minus_days today_start 6) of
             Inl e \<Rightarrow> Inl e
           | Inr start_day \<Rightarrow>
               (let start = combine start_day time_min in
                if datetime_less end start
                then Inl (ValueError (''Start datetime greater than end datetime: ''
                            @ str_datetime start @ '' > '' @ str_datetime end))
                else Inr (isoformat CHR ''T'' Auto start @ ''Z'',
                          isoformat CHR ''T'' Seconds end @ ''Z''))))"

text \<open>
  For examples, a parser for the two plain forms \<open>YYYY-MM-DD\<close> and
  \<open>YYYY-MM-DD\<close>, one separator character, \<open>HH:MM:SS\<close>, which every version of
  the library accepts. It rejects every other form, and the wording of its error is its
  own; the theorems hold for any parser.
\<close>

definition is_leap :: "int \<Rightarrow> bool" where
  "is_leap y = (y mod 4 = 0 \<and> (y mod 100 \<noteq> 0 \<or> y mod 400 = 0))"

definition ymd2ord :: "int \<Rightarrow> int \<Rightarrow> int \<Rightarrow> int" where
  "ymd2ord y m d =
     ((y - 1) * 365 + (y - 1) div 4 - (y - 1) div 100 + (y - 1) div 400)
     + (DAYS_BEFORE_MONTH m + (if 2 < m \<and> is_leap y then 1 else 0)) + d"

fun number :: "nat \<Rightarrow> string \<Rightarrow> nat option" where
  "number acc [] = Some acc"
| "number acc (c # cs) =
     (case map_of [(CHR ''0'', 0), (CHR ''1'', 1), (CHR ''2'', 2), (CHR ''3'', 3), (CHR ''4'', 4),
                   (CHR ''5'', 5), (CHR ''6'', 6), (CHR ''7'', 7), (CHR ''8'', 8), (CHR ''9'', 9)] c of
        None \<Rightarrow> None
      | Some d \<Rightarrow> number (10 * acc + d) cs)"

definition parse_date :: "string \<Rightarrow> int option" where
  "parse_date s =
     (case (number 0 (take 4 s), number 0 (take 2 (drop 5 s)), number 0 (drop 8 s)) of
        (Some y, Some m, Some d) \<Rightarrow>
          if length s = 10 \<and> s ! 4 = CHR ''-'' \<and> s ! 7 = CHR ''-''
             \<and> 1 \<le> y \<and> 1 \<le> m \<and> m \<le> 12 \<and> 1 \<le> d
             \<and> int d \<le> DAYS_IN_MONTH (int m) + (if m = 2 \<and> is_leap (int y) then 1 else 0)
          then Some (ymd2ord (int y) (int m) (int d)) else None
      | _ \<Rightarrow> None)"

definition parse_time :: "string \<Rightarrow> pytime option" where
  "parse_time s =
     (case (number 0 (take 2 s), number 0 (take 2 (drop 3 s)), number 0 (drop 6 s)) of
        (Some h, Some m, Some sec) \<Rightarrow>
          if length s = 8 \<and> s ! 2 = CHR '':'' \<and> s ! 5 = CHR '':''
             \<and> h < 24 \<and> m < 60 \<and> sec < 60
          then Some \<lparr>hour = h, minute = m, second = sec, microsecond = 0\<rparr> else None
      | _ \<Rightarrow> None)"

definition fromisoformat_plain :: "string \<Rightarrow> error + datetime" where
  "fromisoformat_plain s =
     (case (parse_date (take 10 s),
            if length s = 10 then Some time_min else parse_time (drop 11 s)) of
        (Some n, Some t) \<Rightarrow>
          if length s = 10 \<or> length s = 19 then Inr \<lparr>ordinal = n, time_part = t\<rparr>
          else Inl (ValueError (''Invalid isoformat string: '' @ s))
      | _ \<Rightarrow> Inl (ValueError (''Invalid isoformat string: '' @ s)))"

section \<open>The client\<close>

text \<open>
  \<open>str\<close> of a decoded value. Integers print in decimal, strings are themselves;
  how floats, lists and dicts print is left to the parameter \<open>repr\<close>. Examples whose
  values are integers or strings never consult it and pass \<open>repr_elided\<close>.
\<close>

fun nat_str :: "nat \<Rightarrow> string" where
  "nat_str n = (if n < 10 then [digit n] else nat_str (n div 10) @ [digit n])"

declare nat_str.simps [simp del]

definition int_str :: "int \<Rightarrow> string" where
  "int_str i = (if i < 0 then CHR ''-'' # nat_str (nat (- i)) else nat_str (nat i))"

fun py_str :: "(json \<Rightarrow> string) \<Rightarrow> json \<Rightarrow> string" where
  "py_str repr JNull = ''None''"
| "py_str repr (JBool b) = (if b then ''True'' else ''False'')"
| "py_str repr (JInt i) = int_str i"
| "py_str repr (JStr s) = s"
| "py_str repr v = repr v"

definition repr_elided :: "json \<Rightarrow> string" where
  "repr_elided v = ''...''"

text \<open>
  \<open>x.get(key, default)\<close>: a dict yields the value or the default; the other decoded
  objects have no such method.
\<close>

fun py_get :: "json \<Rightarrow> string \<Rightarrow> json \<Rightarrow> error + json" where
  "py_get (JObj kvs) k dflt = Inr (case map_of kvs k of None \<Rightarrow> dflt | Some v \<Rightarrow> v)"
| "py_get _ k dflt = Inl AttributeError"

text \<open>
  The state of a \<open>WhoopClient\<close>: the credentials, the token held by the OAuth session
  (a dict, or \<open>None\<close> before the first fetch) and the user id.
  \<open>session.fetch_token\<close> posts the credentials to the token endpoint. That call is the
  OAuth library's, so its outcome is the parameter \<open>fetched\<close>: either the exception the
  library raises, with the session as it was, or the token as the session then holds it
  (the decoded response of the endpoint, to which the library may add its own
  \<open>expires_at\<close>). Which responses of the endpoint make the library raise is not
  modelled.
\<close>

record whoop_client =
  username :: string
  password :: string
  token :: "(string \<times> json) list option"
  user_id :: string

definition session_token :: "whoop_client \<Rightarrow> json" where
  "session_token c = (case token c of None \<Rightarrow> JNull | Some tok \<Rightarrow> JObj tok)"

definition fetch_token ::
  "error + (string \<times> json) list \<Rightarrow> whoop_client \<Rightarrow> (error + unit) \<times> whoop_client" where
  "fetch_token fetched c =
     (case fetched of
        Inl e \<Rightarrow> (Inl e, c)
      | Inr tok \<Rightarrow> (Inr (), c\<lparr>token := Some tok\<rparr>))"

definition authenticate ::
  "(json \<Rightarrow> string) \<Rightarrow> error + (string \<times> json) list \<Rightarrow> whoop_client
     \<Rightarrow> (error + unit) \<times> whoop_client" where
  "authenticate repr fetched c =
     (case fetch_token fetched c of
        (Inl e, c') \<Rightarrow> (Inl e, c')
      | (Inr _, c') \<Rightarrow>
          if user_id c' \<noteq> [] then (Inr (), c')
          else
            (case py_get (session_token c') ''user'' (JObj []) of
               Inl e \<Rightarrow> (Inl e, c')
             | Inr user \<Rightarrow>
                 (case py_get user ''id'' (JStr []) of
                    Inl e \<Rightarrow> (Inl e, c')
                  | Inr ident \<Rightarrow> (Inr (), c'\<lparr>user_id := py_str repr ident\<rparr>))))"

definition is_authenticated :: "whoop_client \<Rightarrow> bool" where
  "is_authenticated c = (token c \<noteq> None)"

definition whoop_client_init ::
  "(json \<Rightarrow> string) \<Rightarrow> error + (string \<times> json) list \<Rightarrow> string \<Rightarrow> string \<Rightarrow> bool
     \<Rightarrow> (error + unit) \<times> whoop_client" where
  "whoop_client_init repr fetched user pass auth =
     (let c = \<lparr>username = user, password = pass, token = None, user_id = []\<rparr>
      in if auth then authenticate repr fetched c else (Inr (), c))"

text \<open>
  The operations a caller can perform on a client and its network, and their effect on
  both. A paginated request that never ends has no state after it (\<open>None\<close>).
\<close>

datatype operation =
    Authenticate "error + (string \<times> json) list"
  | Is_authenticated
  | Close
  | Format_dates "string option" "string option"
  | Make_request string string "string \<rightharpoonup> json"
  | Make_paginated_request string string "string \<rightharpoonup> json"

fun perform ::
  "(json \<Rightarrow> string) \<Rightarrow> operation \<Rightarrow> whoop_client \<times> network \<Rightarrow> (whoop_client \<times> network) option" where
  "perform repr (Authenticate fetched) (c, w) = Some (snd (authenticate repr fetched c), w)"
| "perform repr Is_authenticated (c, w) = Some (c, w)"
| "perform repr Close (c, w) = Some (c, w)"
| "perform repr (Format_dates start_date end_date) (c, w) = Some (c, w)"
| "perform repr (Make_request meth url_slug ps) (c, w) =
     Some (c, snd (make_request w meth url_slug ps))"
| "perform repr (Make_paginated_request meth url_slug ps) (c, w) =
     map_option (\<lambda>r. (c, snd r)) (make_paginated_request w meth url_slug ps)"

fun perform_all ::
  "(json \<Rightarrow> string) \<Rightarrow> operation list \<Rightarrow> whoop_client \<times> network \<Rightarrow> (whoop_client \<times> network) option" where
  "perform_all repr [] s = Some s"
| "perform_all repr (op # ops) s =
     (case perform repr op s of None \<Rightarrow> None | Some s' \<Rightarrow> perform_all repr ops s')"

section \<open>Properties of the request pipeline\<close>

lemma paginate_loop_round:
  "paginate_loop meth url_slug w ps d =
     (case round_of (pending w 0) of
        Raises e \<Rightarrow> Some (Inl e, after_request w (request_for meth url_slug ps))
      | Last items \<Rightarrow> Some (Inr (d @ items), after_request w (request_for meth url_slug ps))
      | More items tok \<Rightarrow>
          paginate_loop meth url_slug (after_request w (request_for meth url_slug ps))
            (ps(''nextToken'' \<mapsto> tok)) (d @ items))"
  by (subst paginate_loop.simps)
     (simp add: make_request_def session_request_def round_of_def after_request_def
        split: sum.splits)

lemma round_of_page:
  "round_of (page records tok) = (if truthy tok then More records tok else Last records)"
  by (simp add: round_of_def page_def raise_for_status_def response_json_def)

lemma params_at_Cons:
  "params_at (ps(''nextToken'' \<mapsto> snd pg)) rest i = params_at ps (pg # rest) (Suc i)"
  by (cases i) (simp_all add: params_at_def)

lemma requests_sent_Cons:
  "requests_sent meth url_slug ps (pg # rest) (Suc n) =
     request_for meth url_slug ps
       # requests_sent meth url_slug (ps(''nextToken'' \<mapsto> snd pg)) rest n"
proof -
  have "[0..<Suc n] = 0 # map Suc [0..<n]"
    by (simp add: upt_conv_Cons map_Suc_upt del: upt_Suc)
  then show ?thesis
    by (simp add: requests_sent_def params_at_Cons comp_def params_at_def del: upt_Suc)
qed

lemma loop_through:
  "\<forall>i<length pgs. round_of (pending w i) = More (fst (pgs ! i)) (snd (pgs ! i)) \<Longrightarrow>
   paginate_loop meth url_slug w ps d =
     paginate_loop meth url_slug
       \<lparr>pending = (\<lambda>i. pending w (length pgs + i)),
        sent = sent w @ requests_sent meth url_slug ps pgs (length pgs)\<rparr>
       (params_at ps pgs (length pgs)) (d @ concat (map fst pgs))"
proof (induction pgs arbitrary: w ps d)
  case Nil
  then show ?case by (cases w) (simp add: params_at_def requests_sent_def)
next
  case (Cons pg rest)
  let ?w = "after_request w (request_for meth url_slug ps)"
  let ?ps = "ps(''nextToken'' \<mapsto> snd pg)"
  from Cons.prems have first: "round_of (pending w 0) = More (fst pg) (snd pg)"
    by auto
  from Cons.prems
  have "\<forall>i<length rest. round_of (pending ?w i) = More (fst (rest ! i)) (snd (rest ! i))"
    by (auto simp: after_request_def)
  then have "paginate_loop meth url_slug ?w ?ps (d @ fst pg) =
     paginate_loop meth url_slug
       \<lparr>pending = (\<lambda>i. pending ?w (length rest + i)),
        sent = sent ?w @ requests_sent meth url_slug ?ps rest (length rest)\<rparr>
       (params_at ?ps rest (length rest)) ((d @ fst pg) @ concat (map fst rest))"
    by (rule Cons.IH)
  moreover have "paginate_loop meth url_slug w ps d =
      paginate_loop meth url_slug ?w ?ps (d @ fst pg)"
    using first by (subst paginate_loop_round) simp
  ultimately show ?case
    by (simp add: requests_sent_Cons params_at_Cons after_request_def)
qed

text \<open>
  C1. When the server answers with a finite sequence of pages, all but the last carrying
  a truthy \<open>next_token\<close>, \<open>_make_paginated_request\<close> returns the concatenation of the
  pages' records, page after page and in the order within each page, nothing sorted and
  nothing dropped; it issues exactly one request per page, the first with the caller's
  parameters and each later one with \<open>nextToken\<close> set to the cursor of the page before.
\<close>

theorem paginated_request_concatenates:
  assumes "pgs \<noteq> []"
    and "\<forall>i<length pgs. round_of (pending w i) =
           (if Suc i < length pgs then More (fst (pgs ! i)) (snd (pgs ! i))
            else Last (fst (pgs ! i)))"
  shows "make_paginated_request w meth url_slug ps =
     Some (Inr (concat (map fst pgs)),
           \<lparr>pending = (\<lambda>i. pending w (length pgs + i)),
            sent = sent w @ requests_sent meth url_slug ps pgs (length pgs)\<rparr>)"
proof -
  from assms(1) obtain init lst where pgs: "pgs = init @ [lst]"
    by (cases pgs rule: rev_cases) auto
  let ?n = "length init"
  let ?w = "\<lparr>pending = (\<lambda>i. pending w (?n + i)),
            sent = sent w @ requests_sent meth url_slug ps init ?n\<rparr>"
  have "\<forall>i<?n. round_of (pending w i) = More (fst (init ! i)) (snd (init ! i))"
    using assms(2) by (simp add: pgs nth_append)
  then have "paginate_loop meth url_slug w ps [] =
     paginate_loop meth url_slug ?w (params_at ps init ?n) ([] @ concat (map fst init))"
    by (rule loop_through)
  moreover have "round_of (pending ?w 0) = Last (fst lst)"
    using assms(2) by (simp add: pgs)
  moreover have "requests_sent meth url_slug ps init ?n
        @ [request_for meth url_slug (params_at ps init ?n)]
      = requests_sent meth url_slug ps pgs (length pgs)"
    by (simp add: requests_sent_def params_at_def pgs nth_append)
  ultimately show ?thesis
    unfolding make_paginated_request_def
    by (subst (asm) (2) paginate_loop_round) (simp add: after_request_def pgs)
qed

theorem paginated_request_concatenates_witness:
  "make_paginated_request
     \<lparr>pending = script [page [JStr ''a'', JStr ''b''] (JStr ''t1''), page [JStr ''c''] JNull],
      sent = []\<rparr> ''GET'' ''v1/cycle'' Map.empty =
   Some (Inr [JStr ''a'', JStr ''b'', JStr ''c''],
         \<lparr>pending = (\<lambda>i. script [page [JStr ''a'', JStr ''b''] (JStr ''t1''),
                                      page [JStr ''c''] JNull] (2 + i)),
          sent = [\<lparr>http_method = ''GET'',
                   url = ''https://api.prod.whoop.com/developer/v1/cycle'',
                   params = Map.empty\<rparr>,
                  \<lparr>http_method = ''GET'',
                   url = ''https://api.prod.whoop.com/developer/v1/cycle'',
                   params = [''nextToken'' \<mapsto> JStr ''t1'']\<rparr>]\<rparr>)"
  using paginated_request_concatenates
    [of "[([JStr ''a'', JStr ''b''], JStr ''t1''), ([JStr ''c''], JNull)]"
        "\<lparr>pending = script [page [JStr ''a'', JStr ''b''] (JStr ''t1''), page [JStr ''c''] JNull],
          sent = []\<rparr>" "''GET''" "''v1/cycle''" Map.empty]
  by (simp add: script_def round_of_page requests_sent_def params_at_def request_for_def
      REQUEST_URL_def less_Suc_eq upt_rec)

lemma stops_within:
  "\<not> carries_cursor (pending w k) \<Longrightarrow> \<exists>r. paginate_loop meth url_slug w ps d = Some r"
proof (induction k arbitrary: w ps d)
  case 0
  then show ?case
    by (subst paginate_loop_round) (auto simp: carries_cursor_def split: round.splits)
next
  case (Suc k)
  show ?case
  proof (cases "round_of (pending w 0)")
    case (More items tok)
    let ?w = "after_request w (request_for meth url_slug ps)"
    from Suc.prems have "\<not> carries_cursor (pending ?w k)"
      by (simp add: after_request_def)
    then obtain r where
      "paginate_loop meth url_slug ?w (ps(''nextToken'' \<mapsto> tok)) (d @ items) = Some r"
      using Suc.IH by blast
    with More show ?thesis
      by (subst paginate_loop_round) simp
  qed (subst paginate_loop_round, simp)+
qed

lemma returns_stops:
  assumes ret: "paginate_loop meth url_slug w ps d = Some r"
  shows "\<exists>k. \<not> carries_cursor (pending w k)"
proof (rule paginate_loop.raw_induct
    [where P = "\<lambda>meth url_slug w ps d r. \<exists>k. \<not> carries_cursor (pending w k)", OF _ ret])
  fix f :: "string \<Rightarrow> string \<Rightarrow> network \<Rightarrow> (string \<rightharpoonup> json) \<Rightarrow> json list
     \<Rightarrow> ((error + json list) \<times> network) option"
  fix meth url_slug w ps d r
  assume IH: "\<And>meth url_slug w ps d r. f meth url_slug w ps d = Some r
      \<Longrightarrow> \<exists>k. \<not> carries_cursor (pending w k)"
  assume eq: "(case make_request w meth url_slug ps of
        (Inl e, w') \<Rightarrow> Some (Inl e, w')
      | (Inr response, w') \<Rightarrow>
          (case getitem response ''records'' of
             Inl e \<Rightarrow> Some (Inl e, w')
           | Inr records \<Rightarrow>
               (case py_iter records of
                  Inl e \<Rightarrow> Some (Inl e, w')
                | Inr items \<Rightarrow>
                    (case getitem response ''next_token'' of
                       Inl e \<Rightarrow> Some (Inl e, w')
                     | Inr next_token \<Rightarrow>
                         if truthy next_token
                         then f meth url_slug w' (ps(''nextToken'' \<mapsto> next_token))
                                (d @ items)
                         else Some (Inr (d @ items), w'))))) = Some r"
  show "\<exists>k. \<not> carries_cursor (pending w k)"
  proof (cases "carries_cursor (pending w 0)")
    case False
    then show ?thesis by blast
  next
    case True
    then obtain items tok where m: "round_of (pending w 0) = More items tok"
      by (auto simp: carries_cursor_def split: round.splits)
    let ?w = "after_request w (request_for meth url_slug ps)"
    from m eq have "f meth url_slug ?w (ps(''nextToken'' \<mapsto> tok)) (d @ items) = Some r"
      by (auto simp: make_request_def session_request_def round_of_def after_request_def
        split: sum.splits if_splits)
    then obtain k where "\<not> carries_cursor (pending ?w k)"
      using IH by blast
    then have "\<not> carries_cursor (pending w (Suc k))"
      by (simp add: after_request_def)
    then show ?thesis by blast
  qed
qed

lemma stops_at_first:
  assumes before: "\<forall>i<k. carries_cursor (pending w i)"
    and stop: "\<not> carries_cursor (pending w k)"
  shows "\<exists>res reqs. paginate_loop meth url_slug w ps d =
           Some (res, \<lparr>pending = (\<lambda>i. pending w (Suc k + i)), sent = sent w @ reqs\<rparr>)
         \<and> length reqs = Suc k"
  using assms
proof (induction k arbitrary: w ps d)
  case 0
  then show ?case
    by (subst paginate_loop_round)
       (auto simp: carries_cursor_def after_request_def split: round.splits)
next
  case (Suc k)
  from Suc.prems(1) have "carries_cursor (pending w 0)" by simp
  then obtain items tok where m: "round_of (pending w 0) = More items tok"
    by (cases "round_of (pending w 0)") (simp_all add: carries_cursor_def)
  let ?w = "after_request w (request_for meth url_slug ps)"
  have "\<forall>i<k. carries_cursor (pending ?w i)" "\<not> carries_cursor (pending ?w k)"
    using Suc.prems by (auto simp: after_request_def)
  then obtain res reqs where
    "paginate_loop meth url_slug ?w (ps(''nextToken'' \<mapsto> tok)) (d @ items) =
       Some (res, \<lparr>pending = (\<lambda>i. pending ?w (Suc k + i)), sent = sent ?w @ reqs\<rparr>)"
    and "length reqs = Suc k"
    using Suc.IH by blast
  with m have "paginate_loop meth url_slug w ps d =
      Some (res, \<lparr>pending = (\<lambda>i. pending w (Suc (Suc k) + i)),
                  sent = sent w @ (request_for meth url_slug ps # reqs)\<rparr>)
      \<and> length (request_for meth url_slug ps # reqs) = Suc (Suc k)"
    by (subst paginate_loop_round) (simp add: after_request_def)
  then show ?case by blast
qed

text \<open>
  C4. \<open>_make_paginated_request\<close> has no bound on the number of pages. It returns or
  raises (the result is not \<open>None\<close>) if and only if some reply of the server does not
  carry a truthy \<open>next_token\<close>; against a server whose every reply carries one it never
  ends; and when reply number \<open>k\<close> is the first without one, the call ends there, after
  exactly \<open>k + 1\<close> requests.
\<close>

theorem no_page_limit:
  "(make_paginated_request w meth url_slug ps \<noteq> None) = (\<exists>k. \<not> carries_cursor (pending w k))
   \<and> ((\<forall>k. carries_cursor (pending w k)) \<longrightarrow> make_paginated_request w meth url_slug ps = None)
   \<and> (\<forall>k. (\<forall>i<k. carries_cursor (pending w i)) \<and> \<not> carries_cursor (pending w k) \<longrightarrow>
         (\<exists>res reqs. make_paginated_request w meth url_slug ps =
            Some (res, \<lparr>pending = (\<lambda>i. pending w (Suc k + i)), sent = sent w @ reqs\<rparr>)
          \<and> length reqs = Suc k))"
proof -
  have iff: "(make_paginated_request w meth url_slug ps \<noteq> None)
      = (\<exists>k. \<not> carries_cursor (pending w k))"
    unfolding make_paginated_request_def
    using stops_within [of w _ meth url_slug ps "[]"] returns_stops [of meth url_slug w ps "[]"]
    by (metis not_None_eq)
  then have "(\<forall>k. carries_cursor (pending w k)) \<longrightarrow> make_paginated_request w meth url_slug ps = None"
    by blast
  with iff show ?thesis
    unfolding make_paginated_request_def [of w meth url_slug ps]
    using stops_at_first [of _ w meth url_slug ps "[]"] by blast
qed

theorem no_page_limit_witness:
  "make_paginated_request \<lparr>pending = (\<lambda>i. page [JInt (int i)] (JStr ''more'')), sent = []\<rparr>
     ''GET'' ''v1/cycle'' Map.empty = None"
  using no_page_limit
    [of "\<lparr>pending = (\<lambda>i. page [JInt (int i)] (JStr ''more'')), sent = []\<rparr>"
        "''GET''" "''v1/cycle''" Map.empty]
  by (simp add: carries_cursor_def round_of_page)

text \<open>
  C3. A response with a status code from 400 to 599 makes \<open>_make_request\<close> raise
  \<open>HTTPError\<close> with that status instead of returning a body, after the one request it
  issued. When such a response arrives in the middle of a pagination, after any number of
  pages with a cursor, \<open>_make_paginated_request\<close> raises the same error: no request is
  repeated and no partial list of records is returned.
\<close>

theorem http_failure_propagates:
  assumes "400 \<le> status_code r" and "status_code r < 600"
  shows "(pending w 0 = Inr r \<longrightarrow>
            make_request w meth url_slug ps =
              (Inl (HTTPError (status_code r)), after_request w (request_for meth url_slug ps)))
       \<and> ((\<forall>i<length pgs. round_of (pending w i) = More (fst (pgs ! i)) (snd (pgs ! i)))
            \<and> pending w (length pgs) = Inr r \<longrightarrow>
            make_paginated_request w meth url_slug ps =
              Some (Inl (HTTPError (status_code r)),
                    \<lparr>pending = (\<lambda>i. pending w (Suc (length pgs) + i)),
                     sent = sent w @ requests_sent meth url_slug ps pgs (Suc (length pgs))\<rparr>))"
proof (intro conjI impI)
  assume "pending w 0 = Inr r"
  with assms show "make_request w meth url_slug ps =
      (Inl (HTTPError (status_code r)), after_request w (request_for meth url_slug ps))"
    by (simp add: make_request_def session_request_def raise_for_status_def after_request_def)
next
  assume a: "(\<forall>i<length pgs. round_of (pending w i) = More (fst (pgs ! i)) (snd (pgs ! i)))
      \<and> pending w (length pgs) = Inr r"
  let ?n = "length pgs"
  let ?w = "\<lparr>pending = (\<lambda>i. pending w (?n + i)),
            sent = sent w @ requests_sent meth url_slug ps pgs ?n\<rparr>"
  from a have "paginate_loop meth url_slug w ps [] =
     paginate_loop meth url_slug ?w (params_at ps pgs ?n) ([] @ concat (map fst pgs))"
    by (intro loop_through) simp
  moreover have "round_of (pending ?w 0) = Raises (HTTPError (status_code r))"
    using a assms by (simp add: round_of_def raise_for_status_def)
  moreover have "requests_sent meth url_slug ps pgs ?n
        @ [request_for meth url_slug (params_at ps pgs ?n)]
      = requests_sent meth url_slug ps pgs (Suc ?n)"
    by (simp add: requests_sent_def)
  ultimately show "make_paginated_request w meth url_slug ps =
      Some (Inl (HTTPError (status_code r)),
            \<lparr>pending = (\<lambda>i. pending w (Suc (length pgs) + i)),
             sent = sent w @ requests_sent meth url_slug ps pgs (Suc (length pgs))\<rparr>)"
    unfolding make_paginated_request_def
    by (subst (asm) (2) paginate_loop_round) (simp add: after_request_def)
qed

theorem http_failure_propagates_witness:
  "make_request \<lparr>pending = script [Inr \<lparr>status_code = 401, json_body = None\<rparr>], sent = []\<rparr>
      ''GET'' ''v1/user/profile/basic'' Map.empty =
     (Inl (HTTPError 401),
      after_request \<lparr>pending = script [Inr \<lparr>status_code = 401, json_body = None\<rparr>], sent = []\<rparr>
        (request_for ''GET'' ''v1/user/profile/basic'' Map.empty))
   \<and> make_paginated_request
       \<lparr>pending = script [page [JStr ''a'', JStr ''b''] (JStr ''t1''),
                          Inr \<lparr>status_code = 401, json_body = None\<rparr>],
        sent = []\<rparr> ''GET'' ''v1/cycle'' Map.empty =
     Some (Inl (HTTPError 401),
           \<lparr>pending = (\<lambda>i. script [page [JStr ''a'', JStr ''b''] (JStr ''t1''),
                                        Inr \<lparr>status_code = 401, json_body = None\<rparr>] (2 + i)),
            sent = [request_for ''GET'' ''v1/cycle'' Map.empty,
                    request_for ''GET'' ''v1/cycle'' [''nextToken'' \<mapsto> JStr ''t1'']]\<rparr>)"
  using http_failure_propagates
    [of "\<lparr>status_code = 401, json_body = None\<rparr>"
        "\<lparr>pending = script [Inr \<lparr>status_code = 401, json_body = None\<rparr>], sent = []\<rparr>"
        "''GET''" "''v1/user/profile/basic''" Map.empty "[]"]
    http_failure_propagates
    [of "\<lparr>status_code = 401, json_body = None\<rparr>"
        "\<lparr>pending = script [page [JStr ''a'', JStr ''b''] (JStr ''t1''),
                           Inr \<lparr>status_code = 401, json_body = None\<rparr>], sent = []\<rparr>"
        "''GET''" "''v1/cycle''" Map.empty "[([JStr ''a'', JStr ''b''], JStr ''t1'')]"]
  by (simp add: script_def round_of_page requests_sent_def params_at_def upt_rec)

text \<open>
  C2. The loop continues exactly when the page has a \<open>next_token\<close> that is truthy, and
  then the next request carries it as \<open>nextToken\<close>; a \<open>next_token\<close> that is present
  but empty or null ends the loop with the accumulated records. A page without the field
  does not end the loop normally: the subscription raises \<open>KeyError\<close> after that one
  request, as the last theorem below shows on a single page that omits the field.
\<close>

theorem next_token_decides:
  assumes "pending w 0 = Inr r" and "raise_for_status r = Inr ()"
    and "json_body r = Some (JObj kvs)" and "map_of kvs ''records'' = Some records"
    and "py_iter records = Inr items"
  shows "paginate_loop meth url_slug w ps d =
     (case map_of kvs ''next_token'' of
        None \<Rightarrow>
          Some (Inl (KeyError ''next_token''), after_request w (request_for meth url_slug ps))
      | Some next_token \<Rightarrow>
          if truthy next_token
          then paginate_loop meth url_slug (after_request w (request_for meth url_slug ps))
                 (ps(''nextToken'' \<mapsto> next_token)) (d @ items)
          else Some (Inr (d @ items), after_request w (request_for meth url_slug ps)))"
  using assms
  by (subst paginate_loop_round) (simp add: round_of_def response_json_def split: option.splits)

theorem next_token_decides_witness:
  "paginate_loop ''GET'' ''v1/cycle''
     \<lparr>pending = script [page [JStr ''a''] (JStr [])], sent = []\<rparr> Map.empty [] =
     Some (Inr [JStr ''a''],
           after_request \<lparr>pending = script [page [JStr ''a''] (JStr [])], sent = []\<rparr>
             (request_for ''GET'' ''v1/cycle'' Map.empty))"
  using next_token_decides
    [of "\<lparr>pending = script [page [JStr ''a''] (JStr [])], sent = []\<rparr>"
        "\<lparr>status_code = 200,
          json_body = Some (JObj [(''records'', JList [JStr ''a'']), (''next_token'', JStr [])])\<rparr>"
        "[(''records'', JList [JStr ''a'']), (''next_token'', JStr [])]"
        "JList [JStr ''a'']" "[JStr ''a'']" "''GET''" "''v1/cycle''" Map.empty "[]"]
  by (simp add: script_def page_def raise_for_status_def)

theorem absent_next_token_counterexample:
  "map_option fst
     (make_paginated_request
        \<lparr>pending = script [Inr \<lparr>status_code = 200,
                                json_body = Some (JObj [(''records'', JList [JStr ''a''])])\<rparr>],
         sent = []\<rparr> ''GET'' ''v1/cycle'' Map.empty) = Some (Inl (KeyError ''next_token''))
   \<and> map_option fst
     (make_paginated_request
        \<lparr>pending = script [Inr \<lparr>status_code = 200,
                                json_body = Some (JObj [(''records'', JList [JStr ''a''])])\<rparr>],
         sent = []\<rparr> ''GET'' ''v1/cycle'' Map.empty) \<noteq> Some (Inr [JStr ''a''])"
  by (simp add: make_paginated_request_def paginate_loop_round round_of_def script_def
      raise_for_status_def response_json_def)

section \<open>Properties of the date ranges\<close>

lemma time_parts:
  "format_time Auto time_min = ''00:00:00''"
  "format_time Seconds time_max = ''23:59:59''"
  "format_time Auto time_max = ''23:59:59.999999''"
  "\<not> time_less time_max time_min"
  by (simp_all add: format_time_def time_min_def time_max_def time_less_def
      two_digits_def six_digits_def digit_def)

lemma resolved_order:
  "datetime_less (combine ed time_max) (combine sd time_min) = (ordinal ed < ordinal sd)"
  by (auto simp: datetime_less_def combine_def time_parts)

lemma resolved_order_fields:
  "datetime_less \<lparr>ordinal = a, time_part = time_max\<rparr> \<lparr>ordinal = b, time_part = time_min\<rparr>
     = (a < b)"
  by (auto simp: datetime_less_def time_parts)

lemma format_dates_given:
  assumes "start_date \<noteq> []" and "end_date \<noteq> []"
    and "fromisoformat start_date = Inr sd" and "fromisoformat end_date = Inr ed"
  shows "format_dates fromisoformat today_end today_start (Some start_date) (Some end_date) =
     (if datetime_less (combine ed time_max) (combine sd time_min)
      then Inl (ValueError (''Start datetime greater than end datetime: ''
                  @ str_datetime (combine sd time_min) @ '' > ''
                  @ str_datetime (combine ed time_max)))
      else Inr (isoformat CHR ''T'' Auto (combine sd time_min) @ ''Z'',
                isoformat CHR ''T'' Seconds (combine ed time_max) @ ''Z''))"
  using assms by (simp add: format_dates_def Let_def)

text \<open>
  C6. When both dates are given and parse, \<open>_format_dates\<close> raises if and only if the
  resolved start (the start date at 00:00:00) is strictly later than the resolved end (the
  end date at 23:59:59.999999), and what it raises then is the \<open>ValueError\<close> of the
  range check; equal start and end dates succeed.
\<close>

theorem invalid_range_iff:
  assumes "start_date \<noteq> []" and "end_date \<noteq> []"
    and "fromisoformat start_date = Inr sd" and "fromisoformat end_date = Inr ed"
  shows "isl (format_dates fromisoformat today_end today_start (Some start_date) (Some end_date))
           = datetime_less (combine ed time_max) (combine sd time_min)
       \<and> (datetime_less (combine ed time_max) (combine sd time_min) \<longrightarrow>
            format_dates fromisoformat today_end today_start (Some start_date) (Some end_date) =
              Inl (ValueError (''Start datetime greater than end datetime: ''
                     @ str_datetime (combine sd time_min) @ '' > ''
                     @ str_datetime (combine ed time_max))))
       \<and> (ordinal sd = ordinal ed \<longrightarrow>
            \<not> isl (format_dates fromisoformat today_end today_start
                     (Some start_date) (Some end_date)))"
  by (simp add: format_dates_given [OF assms] resolved_order)

lemmas parse_simps = fromisoformat_plain_def parse_date_def parse_time_def ymd2ord_def is_leap_def
  DAYS_IN_MONTH_def DAYS_BEFORE_MONTH_def

lemmas format_simps = format_date_def format_time_def isoformat_def str_datetime_def ord2ymd_def
  DAYS_IN_MONTH_def DAYS_BEFORE_MONTH_def Let_def digit_def two_digits_def four_digits_def
  six_digits_def time_min_def time_max_def combine_def

lemma parse_2024_01_10:
  "fromisoformat_plain ''2024-01-10'' = Inr \<lparr>ordinal = 738895, time_part = time_min\<rparr>"
  by (simp add: parse_simps)

lemma parse_2024_01_01:
  "fromisoformat_plain ''2024-01-01'' = Inr \<lparr>ordinal = 738886, time_part = time_min\<rparr>"
  by (simp add: parse_simps)

theorem invalid_range_iff_witness:
  "format_dates fromisoformat_plain
      \<lparr>ordinal = 739000, time_part = time_min\<rparr> \<lparr>ordinal = 739000, time_part = time_min\<rparr>
      (Some ''2024-01-10'') (Some ''2024-01-01'') =
     Inl (ValueError ''Start datetime greater than end datetime: 2024-01-10 00:00:00 > 2024-01-01 23:59:59.999999'')
   \<and> \<not> isl (format_dates fromisoformat_plain
      \<lparr>ordinal = 739000, time_part = time_min\<rparr> \<lparr>ordinal = 739000, time_part = time_min\<rparr>
      (Some ''2024-01-10'') (Some ''2024-01-10''))"
  using invalid_range_iff [of "''2024-01-10''" "''2024-01-01''" fromisoformat_plain
      "\<lparr>ordinal = 738895, time_part = time_min\<rparr>" "\<lparr>ordinal = 738886, time_part = time_min\<rparr>"
      "\<lparr>ordinal = 739000, time_part = time_min\<rparr>" "\<lparr>ordinal = 739000, time_part = time_min\<rparr>"]
    invalid_range_iff [of "''2024-01-10''" "''2024-01-10''" fromisoformat_plain
      "\<lparr>ordinal = 738895, time_part = time_min\<rparr>" "\<lparr>ordinal = 738895, time_part = time_min\<rparr>"
      "\<lparr>ordinal = 739000, time_part = time_min\<rparr>" "\<lparr>ordinal = 739000, time_part = time_min\<rparr>"]
  by (simp add: parse_2024_01_10 parse_2024_01_01 format_simps datetime_less_def time_less_def)

text \<open>
  C10. The time of day of a given date string is discarded. Let \<open>sd\<close> and \<open>ed\<close> be
  the values the two arguments resolve to: the parse of a given string, with whatever time
  of day it carries, or the default. The result is determined by their dates alone: the
  start is 00:00:00 of the start date, the end 23:59:59 of the end date, and the range
  check compares the dates.
\<close>

theorem time_of_day_discarded:
  assumes "(case given start_date of
              Some s \<Rightarrow> fromisoformat s
            | None \<Rightarrow> minus_days today_start 6) = Inr sd"
    and "(case given end_date of Some s \<Rightarrow> fromisoformat s | None \<Rightarrow> Inr today_end) = Inr ed"
  shows "format_dates fromisoformat today_end today_start start_date end_date =
     (if ordinal ed < ordinal sd
      then Inl (ValueError (''Start datetime greater than end datetime: ''
                  @ format_date (ordinal sd) @ '' 00:00:00 > ''
                  @ format_date (ordinal ed) @ '' 23:59:59.999999''))
      else Inr (format_date (ordinal sd) @ ''T00:00:00Z'',
                format_date (ordinal ed) @ ''T23:59:59Z''))"
  using assms
  by (simp add: format_dates_def Let_def resolved_order_fields isoformat_def
      str_datetime_def combine_def time_parts)

lemma parse_2024_01_10_time:
  "fromisoformat_plain ''2024-01-10T22:30:15''
     = Inr \<lparr>ordinal = 738895,
            time_part = \<lparr>hour = 22, minute = 30, second = 15, microsecond = 0\<rparr>\<rparr>"
  by (simp add: parse_simps)

lemma parse_2024_01_12_time:
  "fromisoformat_plain ''2024-01-12T01:00:00''
     = Inr \<lparr>ordinal = 738897,
            time_part = \<lparr>hour = 1, minute = 0, second = 0, microsecond = 0\<rparr>\<rparr>"
  by (simp add: parse_simps)

theorem time_of_day_discarded_witness:
  "format_dates fromisoformat_plain
      \<lparr>ordinal = 739000, time_part = time_min\<rparr> \<lparr>ordinal = 739000, time_part = time_min\<rparr>
      (Some ''2024-01-10T22:30:15'') (Some ''2024-01-12T01:00:00'') =
     Inr (''2024-01-10T00:00:00Z'', ''2024-01-12T23:59:59Z'')"
  using time_of_day_discarded
    [where start_date = "Some ''2024-01-10T22:30:15''"
       and end_date = "Some ''2024-01-12T01:00:00''"
       and fromisoformat = fromisoformat_plain
       and sd = "\<lparr>ordinal = 738895,
                  time_part = \<lparr>hour = 22, minute = 30, second = 15, microsecond = 0\<rparr>\<rparr>"
       and ed = "\<lparr>ordinal = 738897,
                  time_part = \<lparr>hour = 1, minute = 0, second = 0, microsecond = 0\<rparr>\<rparr>"
       and today_end = "\<lparr>ordinal = 739000, time_part = time_min\<rparr>"
       and today_start = "\<lparr>ordinal = 739000, time_part = time_min\<rparr>"]
  by (simp add: parse_2024_01_10_time parse_2024_01_12_time format_simps)

lemma default_window_same_day:
  assumes "ordinal today_start = ordinal today_end"
    and "7 \<le> ordinal today_end" and "ordinal today_end \<le> 3652059"
  shows "format_dates fromisoformat today_end today_start None None =
     Inr (format_date (ordinal today_end - 6) @ ''T00:00:00Z'',
          format_date (ordinal today_end) @ ''T23:59:59Z'')"
  using assms
  by (simp add: format_dates_def Let_def minus_days_def resolved_order_fields isoformat_def
      combine_def time_parts)

text \<open>
  C5. With both arguments \<open>None\<close> the end is the current date at 23:59:59 and the start
  is at 00:00:00, both printed to the second with the letter Z appended to the local
  wall-clock value. The start is six days before the end when both readings of the clock
  fall on the same day (lemma \<open>default_window_same_day\<close>). The method reads the clock
  twice, though: when midnight passes between the two readings, the start is only five
  days before the end, as the evaluation below shows for the readings
  2024-01-01 23:59:59.999999 and 2024-01-02 00:00:00.
\<close>

theorem default_window_across_midnight:
  "format_dates fromisoformat_plain
      \<lparr>ordinal = 738886, time_part = time_max\<rparr> \<lparr>ordinal = 738887, time_part = time_min\<rparr>
      None None =
     Inr (''2023-12-27T00:00:00Z'', ''2024-01-01T23:59:59Z'')"
  by (simp add: format_dates_def minus_days_def datetime_less_def time_less_def format_simps)

lemma default_window_example:
  "format_dates fromisoformat_plain
      \<lparr>ordinal = 738886, time_part = \<lparr>hour = 9, minute = 30, second = 0, microsecond = 12\<rparr>\<rparr>
      \<lparr>ordinal = 738886, time_part = \<lparr>hour = 9, minute = 30, second = 0, microsecond = 15\<rparr>\<rparr>
      None None =
     Inr (''2023-12-26T00:00:00Z'', ''2024-01-01T23:59:59Z'')"
  by (simp add: format_dates_def minus_days_def datetime_less_def time_less_def format_simps)

section \<open>Properties of the client\<close>

lemma authenticate_keeps_user_id:
  "user_id c \<noteq> [] \<Longrightarrow> user_id (snd (authenticate repr fetched c)) = user_id c"
  by (cases fetched) (simp_all add: authenticate_def fetch_token_def)

lemma perform_keeps_user_id:
  assumes "perform repr op (c, w) = Some (c', w')" and "user_id c \<noteq> []"
  shows "user_id c' = user_id c"
  using assms by (cases op) (auto simp: authenticate_keeps_user_id)

text \<open>
  C7. Once \<open>user_id\<close> is a non-empty string, no sequence of operations on the client
  changes it: not a request, and not a later \<open>authenticate\<close>, whatever \<open>user.id\<close> its
  token response carries.
\<close>

theorem user_id_never_changes:
  assumes "perform_all repr ops (c, w) = Some (c', w')" and "user_id c \<noteq> []"
  shows "user_id c' = user_id c"
  using assms
proof (induction ops arbitrary: c w)
  case Nil
  then show ?case by simp
next
  case (Cons op ops)
  from Cons.prems(1) obtain c1 w1 where
    step: "perform repr op (c, w) = Some (c1, w1)"
    and rest: "perform_all repr ops (c1, w1) = Some (c', w')"
    by (auto split: option.splits)
  from step Cons.prems(2) have same: "user_id c1 = user_id c"
    by (rule perform_keeps_user_id)
  with Cons.prems(2) have "user_id c1 \<noteq> []" by simp
  with rest have "user_id c' = user_id c1" by (rule Cons.IH)
  with same show ?case by simp
qed

lemmas client_simps = authenticate_def fetch_token_def session_token_def is_authenticated_def
  int_str_def nat_str.simps digit_def

theorem user_id_never_changes_witness:
  "perform_all repr_elided
      [Authenticate (Inr [(''access_token'', JStr ''t2''), (''user'', JObj [(''id'', JInt 2)])]),
       Make_request ''GET'' ''v1/user/profile/basic'' Map.empty,
       Authenticate (Inl OAuthError)]
      (\<lparr>username = ''u'', password = ''p'',
        token = Some [(''access_token'', JStr ''t1'')], user_id = ''1''\<rparr>,
       \<lparr>pending = script [], sent = []\<rparr>)
     = Some (\<lparr>username = ''u'', password = ''p'',
              token = Some [(''access_token'', JStr ''t2''), (''user'', JObj [(''id'', JInt 2)])],
              user_id = ''1''\<rparr>,
             after_request \<lparr>pending = script [], sent = []\<rparr>
               (request_for ''GET'' ''v1/user/profile/basic'' Map.empty))
   \<and> user_id \<lparr>username = ''u'', password = ''p'',
              token = Some [(''access_token'', JStr ''t2''), (''user'', JObj [(''id'', JInt 2)])],
              user_id = ''1''\<rparr> = ''1''"
  using user_id_never_changes [of repr_elided
      "[Authenticate (Inr [(''access_token'', JStr ''t2''), (''user'', JObj [(''id'', JInt 2)])]),
        Make_request ''GET'' ''v1/user/profile/basic'' Map.empty,
        Authenticate (Inl OAuthError)]"
      "\<lparr>username = ''u'', password = ''p'',
        token = Some [(''access_token'', JStr ''t1'')], user_id = ''1''\<rparr>"
      "\<lparr>pending = script [], sent = []\<rparr>"
      "\<lparr>username = ''u'', password = ''p'',
        token = Some [(''access_token'', JStr ''t2''), (''user'', JObj [(''id'', JInt 2)])],
        user_id = ''1''\<rparr>"
      "after_request \<lparr>pending = script [], sent = []\<rparr>
         (request_for ''GET'' ''v1/user/profile/basic'' Map.empty)"]
  by (simp add: client_simps make_request_def session_request_def after_request_def script_def)

lemma nat_str_nonempty: "nat_str n \<noteq> []"
  by (subst nat_str.simps) simp

lemma int_str_nonempty: "int_str i \<noteq> []"
  by (simp add: int_str_def nat_str_nonempty)

lemma authenticate_integer_id:
  assumes "user_id c = []"
    and "map_of tok ''user'' = Some (JObj user)" and "map_of user ''id'' = Some (JInt n)"
  shows "authenticate repr (Inr tok) c = (Inr (), c\<lparr>token := Some tok, user_id := int_str n\<rparr>)"
    and "int_str n \<noteq> []"
  using assms
  by (simp_all add: authenticate_def fetch_token_def session_token_def int_str_nonempty)

lemma authenticate_replaces_token:
  "user_id c \<noteq> [] \<Longrightarrow> authenticate repr (Inr tok) c = (Inr (), c\<lparr>token := Some tok\<rparr>)"
  by (simp add: authenticate_def fetch_token_def)

text \<open>
  C8. On a client whose \<open>user_id\<close> is not yet resolved, a token response that carries a
  \<open>user.id\<close> with a non-empty string form makes \<open>authenticate\<close> succeed; afterwards
  \<open>is_authenticated\<close> holds and \<open>user_id\<close> is the string form of that \<open>user.id\<close>,
  which is non-empty. On a client whose \<open>user_id\<close> is already resolved the token is
  replaced and the \<open>user_id\<close> is kept, as the second theorem below shows for a response
  with another \<open>user.id\<close>.
\<close>

theorem authenticate_resolves_user_id:
  assumes "user_id c = []"
    and "map_of tok ''user'' = Some (JObj user)" and "map_of user ''id'' = Some ident"
    and "py_str repr ident \<noteq> []"
  shows "authenticate repr (Inr tok) c =
           (Inr (), c\<lparr>token := Some tok, user_id := py_str repr ident\<rparr>)
       \<and> is_authenticated (snd (authenticate repr (Inr tok) c))
       \<and> user_id (snd (authenticate repr (Inr tok) c)) = py_str repr ident
       \<and> user_id (snd (authenticate repr (Inr tok) c)) \<noteq> []"
  using assms by (simp add: authenticate_def fetch_token_def session_token_def is_authenticated_def)

theorem authenticate_resolves_user_id_witness:
  "authenticate repr_elided
      (Inr [(''access_token'', JStr ''t''), (''user'', JObj [(''id'', JInt 10129)])])
      \<lparr>username = ''u'', password = ''p'', token = None, user_id = []\<rparr>
     = (Inr (),
        \<lparr>username = ''u'', password = ''p'',
         token = Some [(''access_token'', JStr ''t''), (''user'', JObj [(''id'', JInt 10129)])],
         user_id = ''10129''\<rparr>)"
  using authenticate_resolves_user_id [of
      "\<lparr>username = ''u'', password = ''p'', token = None, user_id = []\<rparr>"
      "[(''access_token'', JStr ''t''), (''user'', JObj [(''id'', JInt 10129)])]"
      "[(''id'', JInt 10129)]" "JInt 10129" repr_elided]
  by (simp add: int_str_def nat_str.simps digit_def)

theorem reauthentication_counterexample:
  "authenticate repr_elided
      (Inr [(''access_token'', JStr ''t2''), (''user'', JObj [(''id'', JInt 2)])])
      \<lparr>username = ''u'', password = ''p'',
       token = Some [(''access_token'', JStr ''t1''), (''user'', JObj [(''id'', JInt 1)])],
       user_id = ''1''\<rparr>
     = (Inr (),
        \<lparr>username = ''u'', password = ''p'',
         token = Some [(''access_token'', JStr ''t2''), (''user'', JObj [(''id'', JInt 2)])],
         user_id = ''1''\<rparr>)
   \<and> py_str repr_elided (JInt 2) = ''2'' \<and> ''1'' \<noteq> ''2''"
  by (simp add: client_simps)

text \<open>
  C9. \<open>authenticate\<close> checks nothing itself. It fails when \<open>session.fetch_token\<close>
  raises, and then it passes that error on and assigns nothing: the token and \<open>user_id\<close>
  stay as \<open>fetch_token\<close> left them. For a token response whose \<open>user\<close> entry, if
  present, is an object, this is the only way it fails; whether a rejection by the token
  endpoint raises is therefore decided by the OAuth library alone, and a rejection that the
  library stores as a token is accepted. A token response without \<open>user\<close> or
  \<open>user.id\<close> is not rejected either: \<open>authenticate\<close> succeeds on a client with no
  resolved user id, the token is held and \<open>user_id\<close> stays empty, as the last theorem
  below shows on a fresh client.
\<close>

theorem authenticate_failure:
  "((\<forall>tok v. fetched = Inr tok \<and> map_of tok ''user'' = Some v \<longrightarrow> (\<exists>kvs. v = JObj kvs)) \<longrightarrow>
      isl (fst (authenticate repr fetched c)) = isl (fst (fetch_token fetched c)))
   \<and> (\<forall>e. fst (fetch_token fetched c) = Inl e \<longrightarrow>
         authenticate repr fetched c = (Inl e, snd (fetch_token fetched c)))
   \<and> (user_id c = [] \<and>
        (map_of tok ''user'' = None
         \<or> (\<exists>user. map_of tok ''user'' = Some (JObj user) \<and> map_of user ''id'' = None)) \<longrightarrow>
      authenticate repr (Inr tok) c = (Inr (), c\<lparr>token := Some tok\<rparr>)
      \<and> is_authenticated (c\<lparr>token := Some tok\<rparr>))"
proof (intro conjI impI allI)
  assume wf: "\<forall>tok v. fetched = Inr tok \<and> map_of tok ''user'' = Some v \<longrightarrow> (\<exists>kvs. v = JObj kvs)"
  show "isl (fst (authenticate repr fetched c)) = isl (fst (fetch_token fetched c))"
  proof (cases fetched)
    case (Inl e)
    then show ?thesis by (simp add: authenticate_def fetch_token_def)
  next
    case (Inr tok)
    show ?thesis
    proof (cases "map_of tok ''user''")
      case None
      with Inr show ?thesis
        by (simp add: authenticate_def fetch_token_def session_token_def)
    next
      case (Some v)
      with wf Inr obtain kvs where "v = JObj kvs" by blast
      with Inr Some show ?thesis
        by (simp add: authenticate_def fetch_token_def session_token_def)
    qed
  qed
next
  fix e
  assume "fst (fetch_token fetched c) = Inl e"
  then show "authenticate repr fetched c = (Inl e, snd (fetch_token fetched c))"
    by (cases fetched) (simp_all add: authenticate_def fetch_token_def)
next
  assume "user_id c = [] \<and>
        (map_of tok ''user'' = None
         \<or> (\<exists>user. map_of tok ''user'' = Some (JObj user) \<and> map_of user ''id'' = None))"
  then show "authenticate repr (Inr tok) c = (Inr (), c\<lparr>token := Some tok\<rparr>)"
    by (auto simp: authenticate_def fetch_token_def session_token_def)
next
  show "is_authenticated (c\<lparr>token := Some tok\<rparr>)"
    by (simp add: is_authenticated_def)
qed

theorem authenticate_failure_witness:
  "authenticate repr_elided (Inl OAuthError)
      \<lparr>username = ''u'', password = ''bad'', token = None, user_id = []\<rparr>
     = (Inl OAuthError, \<lparr>username = ''u'', password = ''bad'', token = None, user_id = []\<rparr>)
   \<and> \<not> is_authenticated \<lparr>username = ''u'', password = ''bad'', token = None, user_id = []\<rparr>
   \<and> \<not> isl (fst (authenticate repr_elided
                     (Inr [(''message'', JStr ''Unauthorized'')])
                     \<lparr>username = ''u'', password = ''bad'', token = None, user_id = []\<rparr>))
   \<and> authenticate repr_elided (Inr [(''access_token'', JStr ''t''), (''user'', JObj [])])
      \<lparr>username = ''u'', password = ''p'', token = None, user_id = []\<rparr>
     = (Inr (),
        \<lparr>username = ''u'', password = ''p'',
         token = Some [(''access_token'', JStr ''t''), (''user'', JObj [])], user_id = []\<rparr>)"
  using authenticate_failure [of "Inl OAuthError" repr_elided
      "\<lparr>username = ''u'', password = ''bad'', token = None, user_id = []\<rparr>" "[]"]
    authenticate_failure [of "Inr [(''message'', JStr ''Unauthorized'')]" repr_elided
      "\<lparr>username = ''u'', password = ''bad'', token = None, user_id = []\<rparr>" "[]"]
    authenticate_failure [of "Inl OAuthError" repr_elided
      "\<lparr>username = ''u'', password = ''p'', token = None, user_id = []\<rparr>"
      "[(''access_token'', JStr ''t''), (''user'', JObj [])]"]
  by (simp add: is_authenticated_def fetch_token_def)

theorem missing_user_id_counterexample:
  "authenticate repr_elided (Inr [(''access_token'', JStr ''t'')])
      \<lparr>username = ''u'', password = ''p'', token = None, user_id = []\<rparr>
     = (Inr (),
        \<lparr>username = ''u'', password = ''p'',
         token = Some [(''access_token'', JStr ''t'')], user_id = []\<rparr>)
   \<and> is_authenticated
       \<lparr>username = ''u'', password = ''p'',
        token = Some [(''access_token'', JStr ''t'')], user_id = []\<rparr>"
  by (simp add: client_simps)

end
